theory Spec2Isabelle
  imports Main "HOL-Library.Word"
begin

unbundle bit_operations_syntax

section \<open>Data model of chain.h\<close>

text \<open>
  Machine types. \<open>int\<close> and \<open>unsigned int\<close> are 32-bit words (read with \<open>sint\<close> where the
  source reads them signed), \<open>int64_t\<close>, \<open>uint64_t\<close> and \<open>size_t\<close> are 64-bit words,
  \<open>uint256\<close> is a 256-bit word. A pointer to a block index is an address or NULL
  (\<open>None\<close>); the memory holding block index objects is a partial map from addresses.
\<close>

type_synonym uint256 = "256 word"
type_synonym addr = nat
type_synonym ptr = "addr option"

datatype error = AssertionFailed | InvalidPointer | OutOfBounds | SignedOverflow | StreamFailure

text \<open>\<open>enum BlockStatus\<close>, with the values the source gives.\<close>

definition BLOCK_VALID_HEADER :: "32 word" where "BLOCK_VALID_HEADER = 1"
definition BLOCK_VALID_TREE :: "32 word" where "BLOCK_VALID_TREE = 2"
definition BLOCK_VALID_TRANSACTIONS :: "32 word" where "BLOCK_VALID_TRANSACTIONS = 3"
definition BLOCK_VALID_CHAIN :: "32 word" where "BLOCK_VALID_CHAIN = 4"
definition BLOCK_VALID_SCRIPTS :: "32 word" where "BLOCK_VALID_SCRIPTS = 5"
definition BLOCK_VALID_MASK :: "32 word" where
  "BLOCK_VALID_MASK = BLOCK_VALID_HEADER OR BLOCK_VALID_TREE OR BLOCK_VALID_TRANSACTIONS OR
                      BLOCK_VALID_CHAIN OR BLOCK_VALID_SCRIPTS"
definition BLOCK_HAVE_DATA :: "32 word" where "BLOCK_HAVE_DATA = 8"
definition BLOCK_HAVE_UNDO :: "32 word" where "BLOCK_HAVE_UNDO = 16"
definition BLOCK_HAVE_MASK :: "32 word" where "BLOCK_HAVE_MASK = BLOCK_HAVE_DATA OR BLOCK_HAVE_UNDO"
definition BLOCK_FAILED_VALID :: "32 word" where "BLOCK_FAILED_VALID = 32"
definition BLOCK_FAILED_CHILD :: "32 word" where "BLOCK_FAILED_CHILD = 64"
definition BLOCK_FAILED_MASK :: "32 word" where
  "BLOCK_FAILED_MASK = BLOCK_FAILED_VALID OR BLOCK_FAILED_CHILD"

text \<open>The anonymous enum of block index flags inside \<open>CBlockIndex\<close>.\<close>

definition BLOCK_PROOF_OF_STAKE :: "32 word" where "BLOCK_PROOF_OF_STAKE = push_bit 0 1"
definition BLOCK_STAKE_ENTROPY :: "32 word" where "BLOCK_STAKE_ENTROPY = push_bit 1 1"
definition BLOCK_STAKE_MODIFIER :: "32 word" where "BLOCK_STAKE_MODIFIER = push_bit 2 1"

text \<open>
  Modelled from the spec: \<open>COutPoint\<close>, declared in primitives/transaction.h and not in
  chain.h. A stake outpoint is a transaction hash with an output index; its null value,
  what \<open>SetNull\<close> leaves, is the zero hash with index \<open>(uint32_t) -1\<close>.
\<close>

record COutPoint =
  prevout_hash :: uint256
  prevout_n :: "32 word"

definition COutPoint_SetNull :: COutPoint where
  "COutPoint_SetNull = \<lparr>prevout_hash = 0, prevout_n = - 1\<rparr>"

text \<open>
  \<open>class CBlockIndex\<close>, field by field in the order of the source. \<open>phashBlock\<close> points to
  a hash owned elsewhere; it is modelled by the hash it points to, \<open>None\<close> when NULL.
\<close>

record CBlockIndex =
  phashBlock :: "uint256 option"
  pprev :: ptr
  nChainTrust :: uint256
  pskip :: ptr
  nHeight :: "32 word"
  nFile :: "32 word"
  nDataPos :: "32 word"
  nUndoPos :: "32 word"
  nTx :: "32 word"
  nChainTx :: "32 word"
  nStatus :: "32 word"
  nMint :: "64 word"
  nMoneySupply :: "64 word"
  nFlags :: "32 word"
  nStakeModifier :: "64 word"
  prevoutStake :: COutPoint
  nStakeTime :: "32 word"
  hashProof :: uint256
  POSDetailSet :: bool
  nVersion :: "32 word"
  hashMerkleRoot :: uint256
  nTime :: "32 word"
  nBits :: "32 word"
  nNonce :: "32 word"
  nSequenceId :: "32 word"

type_synonym heap = "addr \<rightharpoonup> CBlockIndex"

text \<open>\<open>CBlockIndex::SetNull\<close>, which the default constructor runs.\<close>

definition SetNull :: CBlockIndex where
  "SetNull = \<lparr>phashBlock = None, pprev = None, nChainTrust = 0, pskip = None, nHeight = 0,
     nFile = 0, nDataPos = 0, nUndoPos = 0, nTx = 0, nChainTx = 0, nStatus = 0, nMint = 0,
     nMoneySupply = 0, nFlags = 0, nStakeModifier = 0, prevoutStake = COutPoint_SetNull,
     nStakeTime = 0, hashProof = 0, POSDetailSet = False, nVersion = 0, hashMerkleRoot = 0,
     nTime = 0, nBits = 0, nNonce = 0, nSequenceId = 0\<rparr>"

section \<open>Validity stage and failure markers\<close>

text \<open>
  \<open>CBlockIndex::IsValid\<close> and \<open>CBlockIndex::RaiseValidity\<close>. The argument is the value of
  the \<open>enum BlockStatus\<close> passed in; the leading \<open>assert\<close> is the first branch. The
  comparisons are unsigned, as in the source (\<open>nStatus\<close> is \<open>unsigned int\<close>).
\<close>

definition IsValid :: "'a CBlockIndex_scheme \<Rightarrow> 32 word \<Rightarrow> error + bool" where
  "IsValid this nUpTo =
     (if nUpTo AND NOT BLOCK_VALID_MASK \<noteq> 0 then Inl AssertionFailed
      else if nStatus this AND BLOCK_FAILED_MASK \<noteq> 0 then Inr False
      else Inr ((nStatus this AND BLOCK_VALID_MASK) \<ge> nUpTo))"

definition RaiseValidity ::
  "'a CBlockIndex_scheme \<Rightarrow> 32 word \<Rightarrow> error + (bool \<times> 'a CBlockIndex_scheme)" where
  "RaiseValidity this nUpTo =
     (if nUpTo AND NOT BLOCK_VALID_MASK \<noteq> 0 then Inl AssertionFailed
      else if nStatus this AND BLOCK_FAILED_MASK \<noteq> 0 then Inr (False, this)
      else if (nStatus this AND BLOCK_VALID_MASK) < nUpTo
        then Inr (True, this\<lparr>nStatus := (nStatus this AND NOT BLOCK_VALID_MASK) OR nUpTo\<rparr>)
      else Inr (False, this))"

text \<open>
  A caller issuing one \<open>RaiseValidity\<close> call after another on the same node: the answers
  in order, and the node after the last call.
\<close>

fun RaiseValidity_calls ::
  "'a CBlockIndex_scheme \<Rightarrow> 32 word list \<Rightarrow> error + (bool list \<times> 'a CBlockIndex_scheme)" where
  "RaiseValidity_calls this [] = Inr ([], this)"
| "RaiseValidity_calls this (u # us) =
     (case RaiseValidity this u of
        Inl e \<Rightarrow> Inl e
      | Inr (b, this') \<Rightarrow>
          (case RaiseValidity_calls this' us of
             Inl e \<Rightarrow> Inl e
           | Inr (bs, this'') \<Rightarrow> Inr (b # bs, this'')))"

section \<open>Proof-of-stake flags\<close>

text \<open>
  \<open>IsProofOfWork\<close> has no assertion in the source and always returns; \<open>IsProofOfStake\<close>
  asserts \<open>POSDetailSet\<close> first.
\<close>

definition IsProofOfWork :: "'a CBlockIndex_scheme \<Rightarrow> bool" where
  "IsProofOfWork this = (\<not> (nFlags this AND BLOCK_PROOF_OF_STAKE \<noteq> 0))"

definition IsProofOfStake :: "'a CBlockIndex_scheme \<Rightarrow> error + bool" where
  "IsProofOfStake this =
     (if POSDetailSet this \<noteq> True then Inl AssertionFailed
      else Inr (nFlags this AND BLOCK_PROOF_OF_STAKE \<noteq> 0))"

definition SetProofOfStake :: "'a CBlockIndex_scheme \<Rightarrow> 'a CBlockIndex_scheme" where
  "SetProofOfStake this = this\<lparr>nFlags := nFlags this OR BLOCK_PROOF_OF_STAKE\<rparr>"

definition GetStakeEntropyBit :: "'a CBlockIndex_scheme \<Rightarrow> 32 word" where
  "GetStakeEntropyBit this = drop_bit 1 (nFlags this AND BLOCK_STAKE_ENTROPY)"

definition SetStakeEntropyBit ::
  "'a CBlockIndex_scheme \<Rightarrow> 32 word \<Rightarrow> bool \<times> 'a CBlockIndex_scheme" where
  "SetStakeEntropyBit this nEntropyBit =
     (if nEntropyBit > 1 then (False, this)
      else (True, this\<lparr>nFlags := nFlags this OR
                          (if nEntropyBit \<noteq> 0 then BLOCK_STAKE_ENTROPY else 0)\<rparr>))"

section \<open>Block time and median time past\<close>

text \<open>
  \<open>GetBlockTime\<close> converts the unsigned 32-bit \<open>nTime\<close> to \<open>int64_t\<close>; the conversion is
  exact, so the \<open>int64_t\<close> value is the integer \<open>uint nTime\<close>. \<open>GetPastTimeLimit\<close>
  subtracts 120 from a value in \<open>[0, 2^32)\<close>, which cannot leave the \<open>int64_t\<close> range.
\<close>

definition GetBlockTime :: "'a CBlockIndex_scheme \<Rightarrow> int" where
  "GetBlockTime this = uint (nTime this)"

definition GetPastTimeLimit :: "'a CBlockIndex_scheme \<Rightarrow> int" where
  "GetPastTimeLimit this = GetBlockTime this - 120"

definition nMedianTimeSpan :: nat where
  "nMedianTimeSpan = 11"

text \<open>
  The loop of \<open>GetMedianTimePast\<close>. The filled part \<open>[pbegin, pend)\<close> of the array
  \<open>pmedian\<close> is the list \<open>buf\<close>: \<open>*(--pbegin) = t\<close> puts \<open>t\<close> in front of it. Reading
  through a pointer that is neither NULL nor the address of a block index is undefined
  in the source and an error here.
\<close>

function GetMedianTimePast_loop :: "heap \<Rightarrow> nat \<Rightarrow> ptr \<Rightarrow> int list \<Rightarrow> error + int list" where
  "GetMedianTimePast_loop mem i pindex buf =
     (if i < nMedianTimeSpan \<and> pindex \<noteq> None then
        (case mem (the pindex) of
           None \<Rightarrow> Inl InvalidPointer
         | Some blk \<Rightarrow> GetMedianTimePast_loop mem (i + 1) (pprev blk) (GetBlockTime blk # buf))
      else Inr buf)"
  by pat_completeness auto
termination
  by (relation "measure (\<lambda>(mem, i, pindex, buf). nMedianTimeSpan - i)") auto

declare GetMedianTimePast_loop.simps [simp del]

text \<open>
  \<open>std::sort(pbegin, pend)\<close> sorts the filled part in ascending order; the result is the
  element at offset \<open>(pend - pbegin) / 2\<close>. \<open>this\<close> is the address of the node.
\<close>

definition GetMedianTimePast :: "heap \<Rightarrow> addr \<Rightarrow> error + int" where
  "GetMedianTimePast mem this =
     (case GetMedianTimePast_loop mem 0 (Some this) [] of
        Inl e \<Rightarrow> Inl e
      | Inr buf \<Rightarrow>
          (if length buf div 2 < length buf then Inr (sort buf ! (length buf div 2))
           else Inl OutOfBounds))"

text \<open>
  The chain of a node down to genesis: \<open>chain_to_genesis mem p blks\<close> holds when following
  \<open>pprev\<close> from the pointer \<open>p\<close> visits exactly the nodes \<open>blks\<close>, nearest first, and then
  reaches NULL.
\<close>

inductive chain_to_genesis :: "heap \<Rightarrow> ptr \<Rightarrow> CBlockIndex list \<Rightarrow> bool" where
  genesis: "chain_to_genesis mem None []"
| step: "mem a = Some blk \<Longrightarrow> chain_to_genesis mem (pprev blk) blks \<Longrightarrow>
         chain_to_genesis mem (Some a) (blk # blks)"

code_pred chain_to_genesis .

text \<open>
  A linear chain in memory for the worked example: the node at address \<open>a\<close> carries the
  \<open>a\<close>-th time of the list and points to address \<open>a - 1\<close>; address 0 is the genesis node.
\<close>

definition linear_chain :: "32 word list \<Rightarrow> heap" where
  "linear_chain ts a =
     (if a < length ts
      then Some (SetNull\<lparr>pprev := (if a = 0 then None else Some (a - 1)), nTime := ts ! a\<rparr>)
      else None)"

section \<open>The disk record\<close>

text \<open>
  \<open>class CDiskBlockIndex : public CBlockIndex\<close> adds two fields to the inherited ones.
\<close>

record CDiskBlockIndex = CBlockIndex +
  blockHash :: uint256
  hashPrev :: uint256

text \<open>The default constructor: the base object is \<open>SetNull\<close>, both hashes are zero.\<close>

definition CDiskBlockIndex_default :: CDiskBlockIndex where
  "CDiskBlockIndex_default = CBlockIndex.extend SetNull (CDiskBlockIndex.fields 0 0)"

text \<open>\<open>CBlockIndex::GetBlockHash\<close> reads through \<open>phashBlock\<close>.\<close>

definition GetBlockHash :: "'a CBlockIndex_scheme \<Rightarrow> error + uint256" where
  "GetBlockHash this = (case phashBlock this of None \<Rightarrow> Inl InvalidPointer | Some h \<Rightarrow> Inr h)"

text \<open>
  Modelled from the spec: the default constructor of \<open>uint256\<close>, declared in uint256.h and
  not in chain.h. A default-constructed hash is zero, the absent cached hash of a record.
\<close>

definition uint256_default :: uint256 where
  "uint256_default = 0"

text \<open>
  \<open>CDiskBlockIndex(CBlockIndex* pindex)\<close> copies \<open>*pindex\<close> into the base object and sets
  \<open>hashPrev\<close> to the parent's hash, zero without a parent. The constructor does not
  mention \<open>blockHash\<close>, which is therefore default-constructed.
\<close>

definition CDiskBlockIndex_from :: "heap \<Rightarrow> addr \<Rightarrow> error + CDiskBlockIndex" where
  "CDiskBlockIndex_from mem pindex =
     (case mem pindex of
        None \<Rightarrow> Inl InvalidPointer
      | Some blk \<Rightarrow>
          (case pprev blk of
             None \<Rightarrow> Inr (CBlockIndex.extend blk (CDiskBlockIndex.fields uint256_default 0))
           | Some p \<Rightarrow>
               (case mem p of
                  None \<Rightarrow> Inl InvalidPointer
                | Some parent \<Rightarrow>
                    (case GetBlockHash parent of
                       Inl e \<Rightarrow> Inl e
                     | Inr h \<Rightarrow>
                         Inr (CBlockIndex.extend blk (CDiskBlockIndex.fields uint256_default h))))))"

subsection \<open>Serialization\<close>

text \<open>
  Modelled from the spec: the stream classes, the macros \<open>READWRITE\<close> and \<open>VARINT\<close> and
  the flag \<open>SER_GETHASH\<close>, declared in serialize.h and not in chain.h. A stream is the sequence
  of field values written so far; \<open>READWRITE(x)\<close> appends the value of \<open>x\<close> when writing
  and takes the next value into \<open>x\<close> when reading, failing on an exhausted stream or on a
  value of another kind. \<open>VARINT(x)\<close> marks the compact variable-length integer encoding.
  \<open>SER_GETHASH\<close> is the bit of \<open>nType\<close> that says the encoding serves hash computation
  only (\<open>1 << 2\<close> upstream).
\<close>

datatype item =
    VarInt32 "32 word"
  | VarInt64 "64 word"
  | Raw32 "32 word"
  | Raw64 "64 word"
  | Raw256 uint256
  | RawOutPoint COutPoint

datatype ser_action = CSerActionSerialize | CSerActionUnserialize

definition ForRead :: "ser_action \<Rightarrow> bool" where
  "ForRead a = (a = CSerActionUnserialize)"

definition SER_GETHASH :: "32 word" where
  "SER_GETHASH = push_bit 2 1"

type_synonym ser_state = "CDiskBlockIndex \<times> item list"
type_synonym stmt = "ser_state \<Rightarrow> error + ser_state"
type_synonym accessor = "(CDiskBlockIndex \<Rightarrow> item) \<times> (item \<Rightarrow> CDiskBlockIndex \<Rightarrow> CDiskBlockIndex option)"

definition VARINT32 ::
  "(CDiskBlockIndex \<Rightarrow> 32 word) \<Rightarrow> ((32 word \<Rightarrow> 32 word) \<Rightarrow> CDiskBlockIndex \<Rightarrow> CDiskBlockIndex) \<Rightarrow> accessor" where
  "VARINT32 get upd =
     (\<lambda>d. VarInt32 (get d), \<lambda>x d. case x of VarInt32 v \<Rightarrow> Some (upd (\<lambda>_. v) d) | _ \<Rightarrow> None)"

definition VARINT64 ::
  "(CDiskBlockIndex \<Rightarrow> 64 word) \<Rightarrow> ((64 word \<Rightarrow> 64 word) \<Rightarrow> CDiskBlockIndex \<Rightarrow> CDiskBlockIndex) \<Rightarrow> accessor" where
  "VARINT64 get upd =
     (\<lambda>d. VarInt64 (get d), \<lambda>x d. case x of VarInt64 v \<Rightarrow> Some (upd (\<lambda>_. v) d) | _ \<Rightarrow> None)"

definition RAW32 ::
  "(CDiskBlockIndex \<Rightarrow> 32 word) \<Rightarrow> ((32 word \<Rightarrow> 32 word) \<Rightarrow> CDiskBlockIndex \<Rightarrow> CDiskBlockIndex) \<Rightarrow> accessor" where
  "RAW32 get upd =
     (\<lambda>d. Raw32 (get d), \<lambda>x d. case x of Raw32 v \<Rightarrow> Some (upd (\<lambda>_. v) d) | _ \<Rightarrow> None)"

definition RAW64 ::
  "(CDiskBlockIndex \<Rightarrow> 64 word) \<Rightarrow> ((64 word \<Rightarrow> 64 word) \<Rightarrow> CDiskBlockIndex \<Rightarrow> CDiskBlockIndex) \<Rightarrow> accessor" where
  "RAW64 get upd =
     (\<lambda>d. Raw64 (get d), \<lambda>x d. case x of Raw64 v \<Rightarrow> Some (upd (\<lambda>_. v) d) | _ \<Rightarrow> None)"

definition RAW256 ::
  "(CDiskBlockIndex \<Rightarrow> uint256) \<Rightarrow> ((uint256 \<Rightarrow> uint256) \<Rightarrow> CDiskBlockIndex \<Rightarrow> CDiskBlockIndex) \<Rightarrow> accessor" where
  "RAW256 get upd =
     (\<lambda>d. Raw256 (get d), \<lambda>x d. case x of Raw256 v \<Rightarrow> Some (upd (\<lambda>_. v) d) | _ \<Rightarrow> None)"

definition RAWOUTPOINT ::
  "(CDiskBlockIndex \<Rightarrow> COutPoint) \<Rightarrow> ((COutPoint \<Rightarrow> COutPoint) \<Rightarrow> CDiskBlockIndex \<Rightarrow> CDiskBlockIndex) \<Rightarrow> accessor" where
  "RAWOUTPOINT get upd =
     (\<lambda>d. RawOutPoint (get d), \<lambda>x d. case x of RawOutPoint v \<Rightarrow> Some (upd (\<lambda>_. v) d) | _ \<Rightarrow> None)"

definition READWRITE :: "ser_action \<Rightarrow> accessor \<Rightarrow> stmt" where
  "READWRITE a f st =
     (case st of (d, s) \<Rightarrow>
        if ForRead a then
          (case s of
             [] \<Rightarrow> Inl StreamFailure
           | x # s' \<Rightarrow> (case snd f x d of None \<Rightarrow> Inl StreamFailure | Some d' \<Rightarrow> Inr (d', s')))
        else Inr (d, s @ [fst f d]))"

text \<open>
  The first \<open>READWRITE(VARINT(nVersion))\<close> names the parameter \<open>nVersion\<close> of
  \<open>SerializationOp\<close>, which hides the member: writing sends the parameter, reading fills
  the parameter, a local that is gone when the function returns.
\<close>

definition READWRITE_param :: "ser_action \<Rightarrow> 32 word \<Rightarrow> stmt" where
  "READWRITE_param a v st =
     (case st of (d, s) \<Rightarrow>
        if ForRead a then
          (case s of
             VarInt32 _ # s' \<Rightarrow> Inr (d, s')
           | _ \<Rightarrow> Inl StreamFailure)
        else Inr (d, s @ [VarInt32 v]))"

text \<open>Statements in sequence, a guarded statement, and an assignment to the object.\<close>

fun seq :: "stmt list \<Rightarrow> stmt" where
  "seq [] st = Inr st"
| "seq (c # cs) st = (case c st of Inl e \<Rightarrow> Inl e | Inr st' \<Rightarrow> seq cs st')"

definition guarded :: "(CDiskBlockIndex \<Rightarrow> bool) \<Rightarrow> stmt \<Rightarrow> stmt" where
  "guarded b c st = (if b (fst st) then c st else Inr st)"

definition assign :: "(CDiskBlockIndex \<Rightarrow> CDiskBlockIndex) \<Rightarrow> stmt" where
  "assign f st = Inr (f (fst st), snd st)"

text \<open>
  \<open>CDiskBlockIndex::SerializationOp\<close>, one function for both directions as in the source,
  statement by statement. \<open>IsProofOfStake\<close> is the asserting accessor defined above.
\<close>

definition SerializationOp :: "ser_action \<Rightarrow> 32 word \<Rightarrow> 32 word \<Rightarrow> stmt" where
  "SerializationOp ser_action nType nVersion_param =
     seq [
       (if nType AND SER_GETHASH = 0 then READWRITE_param ser_action nVersion_param else Inr),
       READWRITE ser_action (VARINT32 nHeight nHeight_update),
       READWRITE ser_action (VARINT32 nStatus nStatus_update),
       READWRITE ser_action (VARINT32 nTx nTx_update),
       guarded (\<lambda>this. nStatus this AND (BLOCK_HAVE_DATA OR BLOCK_HAVE_UNDO) \<noteq> 0)
         (READWRITE ser_action (VARINT32 nFile nFile_update)),
       guarded (\<lambda>this. nStatus this AND BLOCK_HAVE_DATA \<noteq> 0)
         (READWRITE ser_action (VARINT32 nDataPos nDataPos_update)),
       guarded (\<lambda>this. nStatus this AND BLOCK_HAVE_UNDO \<noteq> 0)
         (READWRITE ser_action (VARINT32 nUndoPos nUndoPos_update)),
       READWRITE ser_action (VARINT64 nMint nMint_update),
       READWRITE ser_action (VARINT64 nMoneySupply nMoneySupply_update),
       READWRITE ser_action (RAW32 nFlags nFlags_update),
       READWRITE ser_action (RAW64 nStakeModifier nStakeModifier_update),
       assign (\<lambda>this. this\<lparr>POSDetailSet := True\<rparr>),
       (\<lambda>st. case IsProofOfStake (fst st) of
               Inl e \<Rightarrow> Inl e
             | Inr pos \<Rightarrow>
                 if pos then
                   seq [READWRITE ser_action (RAWOUTPOINT prevoutStake prevoutStake_update),
                        READWRITE ser_action (RAW32 nStakeTime nStakeTime_update)] st
                 else if ForRead ser_action then
                   seq [assign (\<lambda>this. this\<lparr>prevoutStake := COutPoint_SetNull\<rparr>),
                        assign (\<lambda>this. this\<lparr>nStakeTime := 0\<rparr>)] st
                 else Inr st),
       READWRITE ser_action (RAW256 hashProof hashProof_update),
       READWRITE ser_action (RAW32 nVersion nVersion_update),
       READWRITE ser_action (RAW256 hashPrev hashPrev_update),
       READWRITE ser_action (RAW256 hashMerkleRoot hashMerkleRoot_update),
       READWRITE ser_action (RAW32 nTime nTime_update),
       READWRITE ser_action (RAW32 nBits nBits_update),
       READWRITE ser_action (RAW32 nNonce nNonce_update),
       READWRITE ser_action (RAW256 blockHash blockHash_update)]"

text \<open>
  Encoding writes a record to an empty stream; decoding reads a stream into a
  default-constructed record and returns it with what is left of the stream.
\<close>

definition encode :: "32 word \<Rightarrow> 32 word \<Rightarrow> CDiskBlockIndex \<Rightarrow> error + item list" where
  "encode nType nVersion_param d =
     (case SerializationOp CSerActionSerialize nType nVersion_param (d, []) of
        Inl e \<Rightarrow> Inl e
      | Inr (d', s) \<Rightarrow> Inr s)"

definition decode :: "32 word \<Rightarrow> 32 word \<Rightarrow> item list \<Rightarrow> error + ser_state" where
  "decode nType nVersion_param s =
     SerializationOp CSerActionUnserialize nType nVersion_param (CDiskBlockIndex_default, s)"

text \<open>
  The round trip of a node in memory: build the disk record from the node at \<open>pindex\<close>,
  encode it, decode the stream.
\<close>

definition round_trip :: "heap \<Rightarrow> addr \<Rightarrow> 32 word \<Rightarrow> 32 word \<Rightarrow> error + ser_state" where
  "round_trip mem pindex nType nVersion_param =
     (case CDiskBlockIndex_from mem pindex of
        Inl e \<Rightarrow> Inl e
      | Inr d \<Rightarrow>
          (case encode nType nVersion_param d of
             Inl e \<Rightarrow> Inl e
           | Inr s \<Rightarrow> decode nType nVersion_param s))"

text \<open>
  The serialization contract in the words of the spec: the fixed field order, each
  field under its own condition, for a node \<open>blk\<close> with cached hash \<open>bh\<close> and previous
  hash \<open>hp\<close>. It is compared with what \<open>SerializationOp\<close> writes.
\<close>

definition spec_encoding :: "32 word \<Rightarrow> 32 word \<Rightarrow> CBlockIndex \<Rightarrow> uint256 \<Rightarrow> uint256 \<Rightarrow> item list" where
  "spec_encoding nType v blk bh hp =
      (if nType AND SER_GETHASH = 0 then [VarInt32 v] else []) @
      [VarInt32 (nHeight blk), VarInt32 (nStatus blk), VarInt32 (nTx blk)] @
      (if nStatus blk AND (BLOCK_HAVE_DATA OR BLOCK_HAVE_UNDO) \<noteq> 0
       then [VarInt32 (nFile blk)] else []) @
      (if nStatus blk AND BLOCK_HAVE_DATA \<noteq> 0 then [VarInt32 (nDataPos blk)] else []) @
      (if nStatus blk AND BLOCK_HAVE_UNDO \<noteq> 0 then [VarInt32 (nUndoPos blk)] else []) @
      [VarInt64 (nMint blk), VarInt64 (nMoneySupply blk), Raw32 (nFlags blk),
       Raw64 (nStakeModifier blk)] @
      (if nFlags blk AND BLOCK_PROOF_OF_STAKE \<noteq> 0
       then [RawOutPoint (prevoutStake blk), Raw32 (nStakeTime blk)] else []) @
      [Raw256 (hashProof blk), Raw32 (nVersion blk), Raw256 hp, Raw256 (hashMerkleRoot blk),
       Raw32 (nTime blk), Raw32 (nBits blk), Raw32 (nNonce blk), Raw256 bh]"

subsection \<open>The memoized hash of a record\<close>

text \<open>
  Modelled from the spec: the block header, declared in primitives/block.h and not in
  chain.h, is a record of the six fields the source assigns. Its hash function \<open>GetHash\<close>,
  the extern flag \<open>fUseFastIndex\<close> and \<open>GetAdjustedTime\<close> of timedata.h are parameters of
  the model.
\<close>

record CBlockHeader =
  hdr_nVersion :: "32 word"
  hdr_hashPrevBlock :: uint256
  hdr_hashMerkleRoot :: uint256
  hdr_nTime :: "32 word"
  hdr_nBits :: "32 word"
  hdr_nNonce :: "32 word"

text \<open>
  \<open>CDiskBlockIndex::GetBlockHash\<close>. \<open>&&\<close> evaluates left to right and stops early. In
  \<open>nTime < GetAdjustedTime() - 24 * 60 * 60\<close> the subtraction is done in \<open>int64_t\<close>, where
  leaving the range is undefined (an error here), and \<open>nTime\<close> is converted to \<open>int64_t\<close>
  exactly. The result is the returned hash and the record with its cache.
\<close>

definition CDiskBlockIndex_GetBlockHash ::
  "(CBlockHeader \<Rightarrow> uint256) \<Rightarrow> bool \<Rightarrow> 64 word \<Rightarrow> CDiskBlockIndex \<Rightarrow> error + (uint256 \<times> CDiskBlockIndex)" where
  "CDiskBlockIndex_GetBlockHash GetHash fUseFastIndex GetAdjustedTime this =
     (if fUseFastIndex \<and> sint GetAdjustedTime - 24 * 60 * 60 < - (2 ^ 63) then Inl SignedOverflow
      else if fUseFastIndex \<and> uint (nTime this) < sint GetAdjustedTime - 24 * 60 * 60
              \<and> blockHash this \<noteq> 0 then Inr (blockHash this, this)
      else
        (let block = \<lparr>hdr_nVersion = nVersion this, hdr_hashPrevBlock = hashPrev this,
                      hdr_hashMerkleRoot = hashMerkleRoot this, hdr_nTime = nTime this,
                      hdr_nBits = nBits this, hdr_nNonce = nNonce this\<rparr>;
             this' = this\<lparr>blockHash := GetHash block\<rparr>
         in Inr (blockHash this', this')))"

section \<open>The active chain\<close>

text \<open>
  \<open>class CChain\<close> holds a \<open>std::vector<CBlockIndex*>\<close>. \<open>size()\<close> is a \<open>size_t\<close>, taken
  as 64 bits wide; \<open>operator[]\<close> of the vector does not check its index, and an index
  outside the vector is undefined in the source and an error here.
\<close>

record CChain =
  vChain :: "ptr list"

definition vector_size :: "'a list \<Rightarrow> 64 word" where
  "vector_size v = of_nat (length v)"

definition vector_at :: "'a list \<Rightarrow> 64 word \<Rightarrow> error + 'a" where
  "vector_at v i = (if unat i < length v then Inr (v ! unat i) else Inl OutOfBounds)"

definition Genesis :: "CChain \<Rightarrow> error + ptr" where
  "Genesis c = (if vector_size (vChain c) > 0 then vector_at (vChain c) 0 else Inr None)"

definition Tip :: "CChain \<Rightarrow> error + ptr" where
  "Tip c =
     (if vector_size (vChain c) > 0 then vector_at (vChain c) (vector_size (vChain c) - 1)
      else Inr None)"

text \<open>
  \<open>operator[](int nHeight)\<close>: \<open>(int)vChain.size()\<close> keeps the low 32 bits of the size, the
  comparisons are signed, and the index handed to the vector is \<open>nHeight\<close> converted to
  \<open>size_t\<close>. The parameter \<open>nHeight\<close> is written \<open>nHeight_arg\<close>, apart from the field.
\<close>

definition CChain_at :: "CChain \<Rightarrow> 32 word \<Rightarrow> error + ptr" where
  "CChain_at c nHeight_arg =
     (if sint nHeight_arg < 0 \<or> sint nHeight_arg \<ge> sint (ucast (vector_size (vChain c)) :: 32 word)
      then Inr None
      else vector_at (vChain c) (scast nHeight_arg))"

text \<open>\<open>operator==\<close>; \<open>&&\<close> does not evaluate its right side when the sizes differ.\<close>

definition CChain_eq :: "CChain \<Rightarrow> CChain \<Rightarrow> error + bool" where
  "CChain_eq a b =
     (if vector_size (vChain a) = vector_size (vChain b) then
        (case vector_at (vChain a) (vector_size (vChain a) - 1) of
           Inl e \<Rightarrow> Inl e
         | Inr x \<Rightarrow>
             (case vector_at (vChain b) (vector_size (vChain b) - 1) of
                Inl e \<Rightarrow> Inl e
              | Inr y \<Rightarrow> Inr (x = y)))
      else Inr False)"

text \<open>\<open>Height\<close> returns \<open>vChain.size() - 1\<close>, computed in \<open>size_t\<close>, as an \<open>int\<close>.\<close>

definition Height :: "CChain \<Rightarrow> 32 word" where
  "Height c = ucast (vector_size (vChain c) - 1)"

section \<open>Facts about the constants\<close>

lemma BLOCK_VALID_MASK_eq: "BLOCK_VALID_MASK = 7"
  by (simp add: BLOCK_VALID_MASK_def BLOCK_VALID_HEADER_def BLOCK_VALID_TREE_def
      BLOCK_VALID_TRANSACTIONS_def BLOCK_VALID_CHAIN_def BLOCK_VALID_SCRIPTS_def)

lemma BLOCK_FAILED_MASK_eq: "BLOCK_FAILED_MASK = 96"
  by (simp add: BLOCK_FAILED_MASK_def BLOCK_FAILED_VALID_def BLOCK_FAILED_CHILD_def)


section \<open>Bit masks\<close>

lemma within_mask:
  fixes u m :: "'a::len word"
  assumes "u AND NOT m = 0"
  shows "u AND m = u"
proof -
  have "u = u AND (m OR NOT m)" by simp
  also have "\<dots> = (u AND m) OR (u AND NOT m)" by (simp only: bit.conj_disj_distrib)
  also have "\<dots> = u AND m" using assms by simp
  finally show ?thesis by simp
qed

lemma stage_replaced:
  fixes s u m :: "'a::len word"
  assumes "u AND NOT m = 0"
  shows "((s AND NOT m) OR u) AND m = u"
  using within_mask [OF assms]
  by (simp add: bit.conj_disj_distrib2 and.assoc)

lemma other_bits_kept:
  fixes s u m :: "'a::len word"
  assumes "u AND NOT m = 0"
  shows "((s AND NOT m) OR u) AND NOT m = s AND NOT m"
  using assms
  by (simp add: bit.conj_disj_distrib2 and.assoc)

lemma failed_bits_kept:
  fixes s s' :: "32 word"
  assumes "s' AND NOT BLOCK_VALID_MASK = s AND NOT BLOCK_VALID_MASK"
  shows "s' AND BLOCK_FAILED_MASK = s AND BLOCK_FAILED_MASK"
proof -
  have m: "NOT BLOCK_VALID_MASK AND BLOCK_FAILED_MASK = BLOCK_FAILED_MASK"
    by (simp add: BLOCK_VALID_MASK_eq BLOCK_FAILED_MASK_eq)
  have "x AND BLOCK_FAILED_MASK = (x AND NOT BLOCK_VALID_MASK) AND BLOCK_FAILED_MASK"
    for x :: "32 word"
    by (simp add: and.assoc m)
  then show ?thesis using assms by metis
qed

section \<open>Sticky failure\<close>

lemma RaiseValidity_failed:
  "nStatus this AND BLOCK_FAILED_MASK \<noteq> 0 \<Longrightarrow> nUpTo AND NOT BLOCK_VALID_MASK = 0 \<Longrightarrow>
   RaiseValidity this nUpTo = Inr (False, this)"
  by (simp add: RaiseValidity_def)

lemma RaiseValidity_calls_failed:
  "nStatus this AND BLOCK_FAILED_MASK \<noteq> 0 \<Longrightarrow>
   \<forall>u \<in> set us. u AND NOT BLOCK_VALID_MASK = 0 \<Longrightarrow>
   RaiseValidity_calls this us = Inr (replicate (length us) False, this)"
  by (induction us) (simp_all add: RaiseValidity_failed)

text \<open>
  C1. Once a failure marker (failed here or failed through an ancestor) is set in the
  status of a node, a call of \<open>RaiseValidity\<close> with any admissible stage answers false and
  returns the node as it was, so does every call in any later sequence of calls, and
  \<open>IsValid\<close> answers false for any admissible stage, the lowest stage Header included.
\<close>

theorem sticky_failure:
  assumes "nStatus this AND BLOCK_FAILED_MASK \<noteq> 0"
    and "nUpTo AND NOT BLOCK_VALID_MASK = 0"
    and "\<forall>u \<in> set us. u AND NOT BLOCK_VALID_MASK = 0"
  shows "RaiseValidity this nUpTo = Inr (False, this) \<and>
         RaiseValidity_calls this us = Inr (replicate (length us) False, this) \<and>
         IsValid this nUpTo = Inr False \<and>
         IsValid this BLOCK_VALID_HEADER = Inr False"
  using assms
  by (simp add: RaiseValidity_failed RaiseValidity_calls_failed IsValid_def
      BLOCK_VALID_MASK_eq BLOCK_VALID_HEADER_def)

theorem sticky_failure_witness:
  "nStatus (SetNull\<lparr>nStatus := BLOCK_VALID_TREE OR BLOCK_FAILED_VALID\<rparr>) AND BLOCK_FAILED_MASK \<noteq> 0 \<and>
   BLOCK_VALID_SCRIPTS AND NOT BLOCK_VALID_MASK = 0 \<and>
   BLOCK_VALID_CHAIN AND NOT BLOCK_VALID_MASK = 0 \<and>
   BLOCK_VALID_HEADER AND NOT BLOCK_VALID_MASK = 0 \<and>
   RaiseValidity (SetNull\<lparr>nStatus := BLOCK_VALID_TREE OR BLOCK_FAILED_VALID\<rparr>) BLOCK_VALID_SCRIPTS
     = Inr (False, SetNull\<lparr>nStatus := BLOCK_VALID_TREE OR BLOCK_FAILED_VALID\<rparr>) \<and>
   RaiseValidity_calls (SetNull\<lparr>nStatus := BLOCK_VALID_TREE OR BLOCK_FAILED_VALID\<rparr>)
     [BLOCK_VALID_CHAIN, BLOCK_VALID_HEADER]
     = Inr ([False, False], SetNull\<lparr>nStatus := BLOCK_VALID_TREE OR BLOCK_FAILED_VALID\<rparr>) \<and>
   IsValid (SetNull\<lparr>nStatus := BLOCK_VALID_TREE OR BLOCK_FAILED_VALID\<rparr>) BLOCK_VALID_SCRIPTS
     = Inr False \<and>
   IsValid (SetNull\<lparr>nStatus := BLOCK_VALID_TREE OR BLOCK_FAILED_VALID\<rparr>) BLOCK_VALID_HEADER
     = Inr False"
proof -
  let ?n = "SetNull\<lparr>nStatus := BLOCK_VALID_TREE OR BLOCK_FAILED_VALID\<rparr>"
  have a: "nStatus ?n AND BLOCK_FAILED_MASK \<noteq> 0"
    by (simp add: BLOCK_FAILED_MASK_eq BLOCK_VALID_TREE_def BLOCK_FAILED_VALID_def)
  have b: "BLOCK_VALID_SCRIPTS AND NOT BLOCK_VALID_MASK = 0"
    by (simp add: BLOCK_VALID_MASK_eq BLOCK_VALID_SCRIPTS_def)
  have c: "\<forall>u \<in> set [BLOCK_VALID_CHAIN, BLOCK_VALID_HEADER]. u AND NOT BLOCK_VALID_MASK = 0"
    by (simp add: BLOCK_VALID_MASK_eq BLOCK_VALID_CHAIN_def BLOCK_VALID_HEADER_def)
  from sticky_failure [OF a b c] a b c show ?thesis by simp
qed

section \<open>Monotonic validity stage\<close>

lemma raise_tree_then_header:
  assumes nf: "nStatus this AND BLOCK_FAILED_MASK = 0"
    and hdr: "nStatus this AND BLOCK_VALID_MASK = BLOCK_VALID_HEADER"
  shows "\<exists>this'. RaiseValidity_calls this [BLOCK_VALID_TREE, BLOCK_VALID_HEADER]
                    = Inr ([True, False], this') \<and>
                  nStatus this' AND BLOCK_VALID_MASK = BLOCK_VALID_TREE"
proof -
  define s' where "s' = (nStatus this AND NOT BLOCK_VALID_MASK) OR BLOCK_VALID_TREE"
  have t: "BLOCK_VALID_TREE AND NOT BLOCK_VALID_MASK = 0"
    by (simp add: BLOCK_VALID_TREE_def BLOCK_VALID_MASK_eq)
  have h: "BLOCK_VALID_HEADER AND NOT BLOCK_VALID_MASK = 0"
    by (simp add: BLOCK_VALID_HEADER_def BLOCK_VALID_MASK_eq)
  have lt: "BLOCK_VALID_HEADER < BLOCK_VALID_TREE" "\<not> BLOCK_VALID_TREE < BLOCK_VALID_HEADER"
    by (simp_all add: BLOCK_VALID_HEADER_def BLOCK_VALID_TREE_def)
  have first: "RaiseValidity this BLOCK_VALID_TREE = Inr (True, this\<lparr>nStatus := s'\<rparr>)"
    using nf hdr t lt by (simp add: RaiseValidity_def s'_def)
  have stage: "s' AND BLOCK_VALID_MASK = BLOCK_VALID_TREE"
    unfolding s'_def by (rule stage_replaced [OF t])
  have "s' AND NOT BLOCK_VALID_MASK = nStatus this AND NOT BLOCK_VALID_MASK"
    unfolding s'_def by (rule other_bits_kept [OF t])
  then have nf': "s' AND BLOCK_FAILED_MASK = 0"
    using failed_bits_kept nf by metis
  have second: "RaiseValidity (this\<lparr>nStatus := s'\<rparr>) BLOCK_VALID_HEADER
                  = Inr (False, this\<lparr>nStatus := s'\<rparr>)"
    using nf' stage h lt by (simp add: RaiseValidity_def)
  show ?thesis using first second stage by simp
qed

text \<open>
  C2. On a node without failure marker, \<open>RaiseValidity\<close> with an admissible stage answers
  true exactly when that stage is strictly above the stored one; then the stored stage
  becomes the requested one, otherwise it stays; the other status bits and all other
  fields are untouched either way. From stage Header, raising to Tree and then to Header
  answers true and then false and leaves the stage at Tree.
\<close>

theorem raise_validity_monotonic:
  assumes "nStatus this AND BLOCK_FAILED_MASK = 0"
    and "nUpTo AND NOT BLOCK_VALID_MASK = 0"
  shows "(\<exists>this'. RaiseValidity this nUpTo
                     = Inr ((nStatus this AND BLOCK_VALID_MASK) < nUpTo, this') \<and>
            nStatus this' AND BLOCK_VALID_MASK =
              (if (nStatus this AND BLOCK_VALID_MASK) < nUpTo then nUpTo
               else nStatus this AND BLOCK_VALID_MASK) \<and>
            nStatus this' AND NOT BLOCK_VALID_MASK = nStatus this AND NOT BLOCK_VALID_MASK \<and>
            this' = this\<lparr>nStatus := nStatus this'\<rparr>) \<and>
         (nStatus this AND BLOCK_VALID_MASK = BLOCK_VALID_HEADER \<longrightarrow>
            (\<exists>this'. RaiseValidity_calls this [BLOCK_VALID_TREE, BLOCK_VALID_HEADER]
                       = Inr ([True, False], this') \<and>
                     nStatus this' AND BLOCK_VALID_MASK = BLOCK_VALID_TREE))"
proof
  show "\<exists>this'. RaiseValidity this nUpTo
                     = Inr ((nStatus this AND BLOCK_VALID_MASK) < nUpTo, this') \<and>
            nStatus this' AND BLOCK_VALID_MASK =
              (if (nStatus this AND BLOCK_VALID_MASK) < nUpTo then nUpTo
               else nStatus this AND BLOCK_VALID_MASK) \<and>
            nStatus this' AND NOT BLOCK_VALID_MASK = nStatus this AND NOT BLOCK_VALID_MASK \<and>
            this' = this\<lparr>nStatus := nStatus this'\<rparr>"
    using assms stage_replaced [OF assms(2), of "nStatus this"]
      other_bits_kept [OF assms(2), of "nStatus this"]
    by (simp add: RaiseValidity_def)
next
  show "nStatus this AND BLOCK_VALID_MASK = BLOCK_VALID_HEADER \<longrightarrow>
            (\<exists>this'. RaiseValidity_calls this [BLOCK_VALID_TREE, BLOCK_VALID_HEADER]
                       = Inr ([True, False], this') \<and>
                     nStatus this' AND BLOCK_VALID_MASK = BLOCK_VALID_TREE)"
    using raise_tree_then_header [OF assms(1)] by blast
qed

theorem raise_validity_monotonic_witness:
  "nStatus (SetNull\<lparr>nStatus := BLOCK_VALID_HEADER OR BLOCK_HAVE_DATA\<rparr>) AND BLOCK_FAILED_MASK = 0 \<and>
   BLOCK_VALID_TREE AND NOT BLOCK_VALID_MASK = 0 \<and>
   nStatus (SetNull\<lparr>nStatus := BLOCK_VALID_HEADER OR BLOCK_HAVE_DATA\<rparr>) AND BLOCK_VALID_MASK
     = BLOCK_VALID_HEADER \<and>
   (\<exists>this'. RaiseValidity (SetNull\<lparr>nStatus := BLOCK_VALID_HEADER OR BLOCK_HAVE_DATA\<rparr>)
               BLOCK_VALID_TREE = Inr (True, this') \<and>
            nStatus this' AND BLOCK_VALID_MASK = BLOCK_VALID_TREE) \<and>
   (\<exists>this'. RaiseValidity_calls (SetNull\<lparr>nStatus := BLOCK_VALID_HEADER OR BLOCK_HAVE_DATA\<rparr>)
               [BLOCK_VALID_TREE, BLOCK_VALID_HEADER] = Inr ([True, False], this') \<and>
            nStatus this' AND BLOCK_VALID_MASK = BLOCK_VALID_TREE)"
proof -
  let ?n = "SetNull\<lparr>nStatus := BLOCK_VALID_HEADER OR BLOCK_HAVE_DATA\<rparr>"
  have a: "nStatus ?n AND BLOCK_FAILED_MASK = 0"
    by (simp add: BLOCK_FAILED_MASK_eq BLOCK_VALID_HEADER_def BLOCK_HAVE_DATA_def)
  have b: "BLOCK_VALID_TREE AND NOT BLOCK_VALID_MASK = 0"
    by (simp add: BLOCK_VALID_MASK_eq BLOCK_VALID_TREE_def)
  have c: "nStatus ?n AND BLOCK_VALID_MASK = BLOCK_VALID_HEADER"
    by (simp add: BLOCK_VALID_MASK_eq BLOCK_VALID_HEADER_def BLOCK_HAVE_DATA_def)
  have d: "BLOCK_VALID_HEADER < BLOCK_VALID_TREE"
    by (simp add: BLOCK_VALID_HEADER_def BLOCK_VALID_TREE_def)
  from raise_validity_monotonic [OF a b] c d have
    "(\<exists>this'. RaiseValidity ?n BLOCK_VALID_TREE = Inr (True, this') \<and>
            nStatus this' AND BLOCK_VALID_MASK = BLOCK_VALID_TREE) \<and>
     (\<exists>this'. RaiseValidity_calls ?n [BLOCK_VALID_TREE, BLOCK_VALID_HEADER]
                 = Inr ([True, False], this') \<and>
            nStatus this' AND BLOCK_VALID_MASK = BLOCK_VALID_TREE)"
    by auto
  with a b c show ?thesis by blast
qed

section \<open>Stake entropy bit\<close>

lemma word_le_1_iff: "(b::32 word) \<le> 1 \<longleftrightarrow> b = 0 \<or> b = 1"
proof -
  have "b \<le> 1 \<longleftrightarrow> unat b \<le> 1" by (simp add: word_le_nat_alt)
  also have "\<dots> \<longleftrightarrow> unat b = 0 \<or> unat b = 1" by auto
  also have "\<dots> \<longleftrightarrow> b = 0 \<or> b = 1" by (simp add: word_unat_eq_iff)
  finally show ?thesis .
qed

lemma entropy_bit: "drop_bit 1 (f AND push_bit 1 1) = (if bit f 1 then 1 else (0::32 word))"
proof (rule bit_eqI)
  fix n
  show "bit (drop_bit 1 (f AND push_bit 1 1)) n = bit (if bit f 1 then 1 else (0::32 word)) n"
    by (cases n) (auto simp: bit_simps)
qed

lemma GetStakeEntropyBit_eq:
  "GetStakeEntropyBit this = (if bit (nFlags this) 1 then 1 else 0)"
  unfolding GetStakeEntropyBit_def BLOCK_STAKE_ENTROPY_def by (rule entropy_bit)

text \<open>
  C7. \<open>SetStakeEntropyBit\<close> answers true exactly for the inputs 0 and 1; for an input
  above 1 it answers false and returns the node as it was, every field included.
\<close>

theorem set_stake_entropy_bit_validation:
  "(nEntropyBit > 1 \<longrightarrow> SetStakeEntropyBit this nEntropyBit = (False, this)) \<and>
   (nEntropyBit = 0 \<or> nEntropyBit = 1 \<longrightarrow> fst (SetStakeEntropyBit this nEntropyBit) = True) \<and>
   (fst (SetStakeEntropyBit this nEntropyBit) \<longleftrightarrow> nEntropyBit = 0 \<or> nEntropyBit = 1)"
  using word_le_1_iff [of nEntropyBit]
  by (auto simp add: SetStakeEntropyBit_def not_less)

theorem set_stake_entropy_bit_validation_witness:
  "(2::32 word) > 1 \<and> SetStakeEntropyBit SetNull 2 = (False, SetNull) \<and>
   fst (SetStakeEntropyBit SetNull 1) = True \<and> fst (SetStakeEntropyBit SetNull 0) = True \<and>
   SetStakeEntropyBit SetNull 4294967295 = (False, SetNull)"
  using set_stake_entropy_bit_validation [of 2 SetNull]
    set_stake_entropy_bit_validation [of 1 SetNull]
    set_stake_entropy_bit_validation [of 0 SetNull]
    set_stake_entropy_bit_validation [of 4294967295 SetNull]
  by simp

text \<open>
  C10. \<open>SetStakeEntropyBit\<close> only ever sets the entropy flag: on a node whose entropy bit
  reads 1 it reads 1 after the call whatever the input, and the call with input 0
  answers true and returns the node as it was.
\<close>

theorem entropy_bit_never_cleared:
  assumes "GetStakeEntropyBit this = 1"
  shows "GetStakeEntropyBit (snd (SetStakeEntropyBit this nEntropyBit)) = 1 \<and>
         SetStakeEntropyBit this 0 = (True, this) \<and>
         GetStakeEntropyBit (snd (SetStakeEntropyBit this 0)) = 1"
  using assms
  by (auto simp add: GetStakeEntropyBit_eq SetStakeEntropyBit_def bit_or_iff split: if_splits)

theorem entropy_bit_never_cleared_witness:
  "GetStakeEntropyBit (SetNull\<lparr>nFlags := BLOCK_STAKE_ENTROPY\<rparr>) = 1 \<and>
   SetStakeEntropyBit (SetNull\<lparr>nFlags := BLOCK_STAKE_ENTROPY\<rparr>) 0
     = (True, SetNull\<lparr>nFlags := BLOCK_STAKE_ENTROPY\<rparr>) \<and>
   GetStakeEntropyBit (snd (SetStakeEntropyBit (SetNull\<lparr>nFlags := BLOCK_STAKE_ENTROPY\<rparr>) 0)) = 1"
proof -
  have a: "GetStakeEntropyBit (SetNull\<lparr>nFlags := BLOCK_STAKE_ENTROPY\<rparr>) = 1"
    by (simp add: GetStakeEntropyBit_def BLOCK_STAKE_ENTROPY_def)
  from entropy_bit_never_cleared [OF a, of 0] a show ?thesis by simp
qed

section \<open>Reading the proof-of-stake status\<close>

lemma IsProofOfStake_before_detail:
  "\<not> POSDetailSet this \<Longrightarrow> IsProofOfStake this = Inl AssertionFailed"
  by (simp add: IsProofOfStake_def)

lemma pos_status_complementary:
  "POSDetailSet this \<Longrightarrow> IsProofOfStake this = Inr (\<not> IsProofOfWork this)"
  by (simp add: IsProofOfStake_def IsProofOfWork_def)

text \<open>
  C4. On a node built from a header alone the PoS-detail-set flag is false;
  \<open>IsProofOfStake\<close> stops at its assertion there, while \<open>IsProofOfWork\<close>, which reads the
  same flag bit, has no assertion and answers true.
\<close>

theorem is_proof_of_work_unguarded:
  "\<not> POSDetailSet SetNull \<and> IsProofOfStake SetNull = Inl AssertionFailed \<and>
   IsProofOfWork SetNull = True"
  by (simp add: SetNull_def IsProofOfStake_def IsProofOfWork_def)

section \<open>Accessors of the active chain\<close>

lemma unat_vector_size: "length v < 2 ^ 64 \<Longrightarrow> unat (vector_size v) = length v"
  by (simp add: vector_size_def unat_of_nat)

lemma vector_size_pos: "length v < 2 ^ 64 \<Longrightarrow> vector_size v > 0 \<longleftrightarrow> v \<noteq> []"
  using unat_vector_size [of v] by (auto simp: word_gt_0 vector_size_def)

lemma unat_vector_size_pred:
  "length v < 2 ^ 64 \<Longrightarrow> v \<noteq> [] \<Longrightarrow> unat (vector_size v - 1) = length v - 1"
  using unat_vector_size [of v] vector_size_pos [of v]
  by (simp add: unat_minus_one word_gt_0)

lemma vector_size_int: "vector_size v = word_of_int (int (length v))"
  by (simp add: vector_size_def)

lemma sint_small: "- (2 ^ 31) \<le> x \<Longrightarrow> x < 2 ^ 31 \<Longrightarrow> sint (word_of_int x :: 32 word) = x"
  by (simp add: sint_sbintrunc' signed_take_bit_int_eq_self)

lemma size_t_to_int_is_down: "is_down (ucast :: 64 word \<Rightarrow> 32 word)"
  by (simp add: is_down)

lemma int_size:
  assumes "length v < 2 ^ 31"
  shows "sint (ucast (vector_size v) :: 32 word) = int (length v)"
proof -
  have "(ucast (vector_size v) :: 32 word) = word_of_int (int (length v))"
    by (simp only: vector_size_int ucast_down_wi [OF size_t_to_int_is_down])
  moreover have "sint (word_of_int (int (length v)) :: 32 word) = int (length v)"
    using assms by (intro sint_small) simp_all
  ultimately show ?thesis by (simp only:)
qed

lemma sint_Height:
  assumes "length (vChain c) < 2 ^ 31"
  shows "sint (Height c) = int (length (vChain c)) - 1"
proof -
  have "vector_size (vChain c) - 1 = word_of_int (int (length (vChain c)) - 1)"
    by (simp only: vector_size_int wi_hom_sub [symmetric] word_of_int_1)
  then have "Height c = word_of_int (int (length (vChain c)) - 1)"
    by (simp only: Height_def ucast_down_wi [OF size_t_to_int_is_down])
  moreover have "sint (word_of_int (int (length (vChain c)) - 1) :: 32 word) = int (length (vChain c)) - 1"
    using assms by (intro sint_small) simp_all
  ultimately show ?thesis by (simp only:)
qed

lemma unat_scast:
  assumes a: "0 \<le> sint (h :: 32 word)"
  shows "unat (scast h :: 64 word) = nat (sint h)"
proof -
  have "sint h < 2 ^ 31" using sint_lt [of h] by simp
  then have b: "sint h < 2 ^ 64" by simp
  have "uint (word_of_int (sint h) :: 64 word) = sint h"
    using a b by (simp only: uint_word_of_int) simp
  then have "uint (scast h :: 64 word) = sint h" by (simp only: scast_eq)
  then show ?thesis by (simp only: unat_eq_nat_uint)
qed


lemma CChain_at_eq:
  assumes len: "length (vChain c) < 2 ^ 31"
  shows "CChain_at c h =
           Inr (if 0 \<le> sint h \<and> sint h \<le> sint (Height c) then vChain c ! nat (sint h) else None)"
proof (cases "0 \<le> sint h \<and> sint h < int (length (vChain c))")
  case True
  then have "unat (scast h :: 64 word) = nat (sint h)" by (simp add: unat_scast)
  moreover have "nat (sint h) < length (vChain c)" using True by linarith
  ultimately show ?thesis
    using True len by (simp add: CChain_at_def int_size sint_Height vector_at_def)
next
  case False
  then show ?thesis
    using len by (auto simp add: CChain_at_def int_size sint_Height)
qed

lemma Genesis_eq:
  assumes len: "length (vChain c) < 2 ^ 31"
  shows "Genesis c = Inr (if vChain c = [] then None else hd (vChain c))"
proof -
  have "length (vChain c) < 2 ^ 64" using len by simp
  then show ?thesis
    by (simp add: Genesis_def vector_size_pos vector_at_def hd_conv_nth)
qed

lemma Tip_eq:
  assumes len: "length (vChain c) < 2 ^ 31"
  shows "Tip c = Inr (if vChain c = [] then None else last (vChain c))"
proof -
  have "length (vChain c) < 2 ^ 64" using len by simp
  then show ?thesis
    by (simp add: Tip_def vector_size_pos vector_at_def unat_vector_size_pred last_conv_nth)
qed


text \<open>
  C8. For a chain whose length fits the \<open>int\<close> that heights are (fewer than \<open>2^31\<close>
  entries): \<open>operator[]\<close> returns the stored entry, read inside the vector, when
  \<open>0 \<le> h \<le> Height()\<close> and NULL otherwise, never an error; \<open>Height()\<close> is the length
  minus 1, so \<open>-1\<close> for the empty chain; \<open>Genesis()\<close> and \<open>Tip()\<close> return the first and the
  last entry, NULL on the empty chain, and when no stored entry is NULL they return NULL
  exactly on the empty chain.
\<close>

theorem chain_accessors_total:
  assumes len: "length (vChain c) < 2 ^ 31"
  shows "CChain_at c h =
           Inr (if 0 \<le> sint h \<and> sint h \<le> sint (Height c) then vChain c ! nat (sint h) else None) \<and>
         (0 \<le> sint h \<and> sint h \<le> sint (Height c) \<longrightarrow> nat (sint h) < length (vChain c)) \<and>
         sint (Height c) = int (length (vChain c)) - 1 \<and>
         (vChain c = [] \<longrightarrow> sint (Height c) = - 1) \<and>
         Genesis c = Inr (if vChain c = [] then None else hd (vChain c)) \<and>
         Tip c = Inr (if vChain c = [] then None else last (vChain c)) \<and>
         (None \<notin> set (vChain c) \<longrightarrow>
            (Genesis c = Inr None \<longleftrightarrow> vChain c = []) \<and> (Tip c = Inr None \<longleftrightarrow> vChain c = []))"
proof -
  have nn: "None \<notin> set (vChain c) \<Longrightarrow> vChain c \<noteq> [] \<Longrightarrow>
            hd (vChain c) \<noteq> None \<and> last (vChain c) \<noteq> None"
    by (metis hd_in_set last_in_set)
  have inb: "0 \<le> sint h \<and> sint h \<le> sint (Height c) \<longrightarrow> nat (sint h) < length (vChain c)"
    using sint_Height [OF len] by auto
  show ?thesis
    using CChain_at_eq [OF len, of h] sint_Height [OF len] Genesis_eq [OF len] Tip_eq [OF len] nn inb
    by auto
qed

theorem chain_accessors_total_witness:
  "length (vChain \<lparr>vChain = [Some 10, Some 11, Some 12]\<rparr>) < 2 ^ 31 \<and>
   CChain_at \<lparr>vChain = [Some 10, Some 11, Some 12]\<rparr> 1 = Inr (Some 11) \<and>
   CChain_at \<lparr>vChain = [Some 10, Some 11, Some 12]\<rparr> 3 = Inr None \<and>
   CChain_at \<lparr>vChain = [Some 10, Some 11, Some 12]\<rparr> (- 1) = Inr None \<and>
   sint (Height \<lparr>vChain = [Some 10, Some 11, Some 12]\<rparr>) = 2 \<and>
   Genesis \<lparr>vChain = [Some 10, Some 11, Some 12]\<rparr> = Inr (Some 10) \<and>
   Tip \<lparr>vChain = [Some 10, Some 11, Some 12]\<rparr> = Inr (Some 12)"
proof -
  let ?c = "\<lparr>vChain = [Some 10, Some 11, Some (12::nat)]\<rparr>"
  have len: "length (vChain ?c) < 2 ^ 31" by simp
  have h: "sint (Height ?c) = 2"
    using chain_accessors_total [OF len, of 0] by simp
  show ?thesis
    using len h chain_accessors_total [OF len, of 1] chain_accessors_total [OF len, of 3]
      chain_accessors_total [OF len, of "- 1"]
    by simp
qed


section \<open>Comparing chains\<close>

lemma CChain_eq_nonempty:
  assumes "vChain a \<noteq> []" and "length (vChain a) = length (vChain b)"
    and "length (vChain a) < 2 ^ 64"
  shows "CChain_eq a b = Inr (last (vChain a) = last (vChain b))"
proof -
  have ne: "vChain b \<noteq> []" using assms by auto
  have sz: "vector_size (vChain a) = vector_size (vChain b)"
    by (simp add: vector_size_def assms(2))
  have lb: "length (vChain b) < 2 ^ 64" using assms by simp
  show ?thesis
    using assms ne
    by (simp add: CChain_eq_def sz vector_at_def unat_vector_size_pred [OF lb ne] last_conv_nth)
qed


text \<open>
  C9. Comparing two empty chains: the sizes are equal, so the right side of \<open>&&\<close> is
  evaluated and reads index \<open>size() - 1\<close>, which is \<open>2^64 - 1\<close> for size 0, of an empty
  vector.
\<close>

theorem chain_eq_empty_out_of_bounds:
  "CChain_eq \<lparr>vChain = []\<rparr> \<lparr>vChain = []\<rparr> = Inl OutOfBounds"
  by (simp add: CChain_eq_def vector_size_def vector_at_def)

section \<open>Median time past\<close>

lemma sort_rev: "sort (rev xs) = sort (xs :: int list)"
proof -
  have "sort (rev xs) = fold insort (rev xs) []" by (rule sort_conv_fold)
  also have "\<dots> = foldr insort xs []" by (simp add: foldr_conv_fold)
  also have "\<dots> = sort xs" by (simp add: sort_key_def)
  finally show ?thesis .
qed

lemma loop_collects:
  assumes "chain_to_genesis mem p blks"
  shows "GetMedianTimePast_loop mem i p buf =
           Inr (rev (map GetBlockTime (take (nMedianTimeSpan - i) blks)) @ buf)"
  using assms
proof (induction arbitrary: i buf rule: chain_to_genesis.induct)
  case (genesis mem)
  show ?case by (subst GetMedianTimePast_loop.simps) simp
next
  case (step mem a blk blks)
  show ?case
  proof (cases "i < nMedianTimeSpan")
    case True
    then obtain k where k: "nMedianTimeSpan - i = Suc k" "nMedianTimeSpan - (i + 1) = k"
      by (metis Suc_diff_Suc Suc_eq_plus1 diff_Suc_eq_diff_pred diff_diff_left)
    show ?thesis
      using True step.hyps(1) step.IH [of "i + 1" "GetBlockTime blk # buf"] k
      by (subst GetMedianTimePast_loop.simps) simp
  next
    case False
    then show ?thesis by (subst GetMedianTimePast_loop.simps) simp
  qed
qed

lemma chain_nonempty: "chain_to_genesis mem (Some a) blks \<Longrightarrow> blks \<noteq> []"
  by (erule chain_to_genesis.cases) auto

lemma linear_chain_is_chain:
  "a < length ts \<Longrightarrow>
   chain_to_genesis (linear_chain ts) (Some a)
     (map (\<lambda>k. SetNull\<lparr>pprev := (if k = 0 then None else Some (k - 1)), nTime := ts ! k\<rparr>)
        (rev [0..<Suc a]))"
proof (induction a)
  case 0
  let ?f = "\<lambda>k. SetNull\<lparr>pprev := (if k = 0 then None else Some (k - 1)), nTime := ts ! k\<rparr>"
  have m: "linear_chain ts 0 = Some (?f 0)"
    using 0 by (simp add: linear_chain_def)
  have "chain_to_genesis (linear_chain ts) (Some 0) [?f 0]"
    using m by (rule chain_to_genesis.step [where mem = "linear_chain ts" and a = 0])
      (simp add: chain_to_genesis.genesis)
  then show ?case by simp
next
  case (Suc a)
  let ?f = "\<lambda>k. SetNull\<lparr>pprev := (if k = 0 then None else Some (k - 1)), nTime := ts ! k\<rparr>"
  have ih: "chain_to_genesis (linear_chain ts) (Some a) (map ?f (rev [0..<Suc a]))"
    using Suc by simp
  have m: "linear_chain ts (Suc a) = Some (?f (Suc a))"
    using Suc.prems by (simp add: linear_chain_def)
  have "chain_to_genesis (linear_chain ts) (Some (Suc a)) (?f (Suc a) # map ?f (rev [0..<Suc a]))"
    using m by (rule chain_to_genesis.step [where mem = "linear_chain ts" and a = "Suc a"])
      (use ih in simp)
  then show ?case by simp
qed

text \<open>
  C5. For a node whose chain of parents down to genesis is \<open>blks\<close> (the node first),
  \<open>GetMedianTimePast\<close> returns the element at index \<open>count / 2\<close> of the sorted block times
  of the first 11 nodes of \<open>blks\<close>, where \<open>count\<close> is 11 or the length of the chain when
  that is shorter; the index lies inside the sorted sequence. The witness is a chain of
  twelve blocks whose last eleven times are 100, 103, 107, 110, 111, 112, 115, 120, 121,
  130, 140: the result is 112.
\<close>

theorem median_time_past:
  assumes "chain_to_genesis mem (Some this) blks"
  shows "GetMedianTimePast mem this =
           Inr (sort (map GetBlockTime (take 11 blks)) ! (length (take 11 blks) div 2)) \<and>
         length (take 11 blks) = min 11 (length blks) \<and>
         length (take 11 blks) div 2 < length (take 11 blks)"
proof -
  have ne: "blks \<noteq> []" using assms by (rule chain_nonempty)
  have loop: "GetMedianTimePast_loop mem 0 (Some this) []
                = Inr (rev (map GetBlockTime (take 11 blks)))"
    using loop_collects [OF assms, of 0 "[]"] by (simp add: nMedianTimeSpan_def)
  have idx: "min (length blks) 11 div 2 < length blks \<and> min (length blks) 11 div 2 < 11"
    using ne by (cases blks) (auto simp: min_def)
  show ?thesis
    using idx by (simp add: GetMedianTimePast_def loop sort_rev min.commute)
qed

theorem median_time_past_witness:
  "chain_to_genesis
     (linear_chain [99999, 100, 103, 107, 110, 111, 112, 115, 120, 121, 130, 140]) (Some 11)
     (map (\<lambda>k. SetNull\<lparr>pprev := (if k = 0 then None else Some (k - 1)),
                        nTime := [99999, 100, 103, 107, 110, 111, 112, 115, 120, 121, 130, 140] ! k\<rparr>)
        (rev [0..<Suc 11])) \<and>
   GetMedianTimePast
     (linear_chain [99999, 100, 103, 107, 110, 111, 112, 115, 120, 121, 130, 140]) 11
     = Inr 112"
proof -
  let ?ts = "[99999, 100, 103, 107, 110, 111, 112, 115, 120, 121, 130, 140] :: 32 word list"
  have c: "chain_to_genesis (linear_chain ?ts) (Some 11)
     (map (\<lambda>k. SetNull\<lparr>pprev := (if k = 0 then None else Some (k - 1)), nTime := ?ts ! k\<rparr>)
        (rev [0..<Suc 11]))"
    by (rule linear_chain_is_chain) simp
  have u: "[0..<Suc 11] = [0, 1, 2, 3, 4, 5, 6, 7, 8, 9, 10, 11]" by (simp add: upt_rec)
  from median_time_past [OF c] have
    "GetMedianTimePast (linear_chain ?ts) 11 = Inr 112"
    unfolding u by (simp add: GetBlockTime_def)
  with c show ?thesis by simp
qed

section \<open>Round trip of the disk record\<close>

lemmas ser_defs = SerializationOp_def READWRITE_def READWRITE_param_def guarded_def assign_def
  VARINT32_def VARINT64_def RAW32_def RAW64_def RAW256_def RAWOUTPOINT_def ForRead_def
  IsProofOfStake_def

lemma encode_is_spec_encoding:
  "encode nType v (CBlockIndex.extend blk (CDiskBlockIndex.fields bh hp))
     = Inr (spec_encoding nType v blk bh hp)"
  by (simp add: encode_def spec_encoding_def ser_defs CBlockIndex.defs CDiskBlockIndex.defs)

lemma decode_spec_encoding:
  "decode nType v' (spec_encoding nType v blk bh hp) = Inr
     (CDiskBlockIndex_default\<lparr>
        nHeight := nHeight blk, nStatus := nStatus blk, nTx := nTx blk,
        nFile := (if nStatus blk AND (BLOCK_HAVE_DATA OR BLOCK_HAVE_UNDO) \<noteq> 0 then nFile blk else 0),
        nDataPos := (if nStatus blk AND BLOCK_HAVE_DATA \<noteq> 0 then nDataPos blk else 0),
        nUndoPos := (if nStatus blk AND BLOCK_HAVE_UNDO \<noteq> 0 then nUndoPos blk else 0),
        nMint := nMint blk, nMoneySupply := nMoneySupply blk, nFlags := nFlags blk,
        nStakeModifier := nStakeModifier blk, POSDetailSet := True,
        prevoutStake := (if nFlags blk AND BLOCK_PROOF_OF_STAKE \<noteq> 0 then prevoutStake blk
                         else COutPoint_SetNull),
        nStakeTime := (if nFlags blk AND BLOCK_PROOF_OF_STAKE \<noteq> 0 then nStakeTime blk else 0),
        hashProof := hashProof blk, nVersion := nVersion blk, hashPrev := hp,
        hashMerkleRoot := hashMerkleRoot blk, nTime := nTime blk, nBits := nBits blk,
        nNonce := nNonce blk, blockHash := bh\<rparr>, [])"
  by (simp add: decode_def spec_encoding_def ser_defs CDiskBlockIndex_default_def SetNull_def
      CBlockIndex.defs CDiskBlockIndex.defs)

lemma CDiskBlockIndex_from_Inr:
  assumes "mem pindex = Some blk" and "CDiskBlockIndex_from mem pindex = Inr d"
  shows "d = CBlockIndex.extend blk (CDiskBlockIndex.fields 0 (hashPrev d)) \<and>
         (case pprev blk of
            None \<Rightarrow> hashPrev d = 0
          | Some p \<Rightarrow> (\<exists>parent. mem p = Some parent \<and> phashBlock parent = Some (hashPrev d)))"
  using assms
  by (auto simp add: CDiskBlockIndex_from_def GetBlockHash_def uint256_default_def
      CBlockIndex.defs CDiskBlockIndex.defs split: option.splits sum.splits)

text \<open>
  C3, as the code has it. Building the disk record of a node, encoding it and decoding
  the stream into a fresh record consumes the whole stream and gives the default record
  with these fields set: height, status, transaction count, mint, money supply, flags,
  stake modifier, proof hash and the header fields version, merkle root, time, bits and
  nonce, all equal to the node's; \<open>hashPrev\<close> equal to the parent's hash (zero without a
  parent) in place of the parent pointer; file number, data position and undo position
  equal to the node's when the matching availability bits are set in the status, zero
  otherwise; stake outpoint and stake time equal to the node's when its proof-of-stake
  flag is set, null and zero otherwise, whatever they were before encoding; the
  PoS-detail-set flag true. The fields kept in memory only (block hash pointer, parent
  pointer, skip pointer, chain trust, chain transaction count, sequence id) are not
  written and come back as the defaults.
\<close>

theorem disk_record_round_trip:
  assumes "mem pindex = Some blk" and "CDiskBlockIndex_from mem pindex = Inr d"
  shows "round_trip mem pindex nType v = Inr
     (CDiskBlockIndex_default\<lparr>
        nHeight := nHeight blk, nStatus := nStatus blk, nTx := nTx blk,
        nFile := (if nStatus blk AND (BLOCK_HAVE_DATA OR BLOCK_HAVE_UNDO) \<noteq> 0 then nFile blk else 0),
        nDataPos := (if nStatus blk AND BLOCK_HAVE_DATA \<noteq> 0 then nDataPos blk else 0),
        nUndoPos := (if nStatus blk AND BLOCK_HAVE_UNDO \<noteq> 0 then nUndoPos blk else 0),
        nMint := nMint blk, nMoneySupply := nMoneySupply blk, nFlags := nFlags blk,
        nStakeModifier := nStakeModifier blk, POSDetailSet := True,
        prevoutStake := (if nFlags blk AND BLOCK_PROOF_OF_STAKE \<noteq> 0 then prevoutStake blk
                         else COutPoint_SetNull),
        nStakeTime := (if nFlags blk AND BLOCK_PROOF_OF_STAKE \<noteq> 0 then nStakeTime blk else 0),
        hashProof := hashProof blk, nVersion := nVersion blk, hashPrev := hashPrev d,
        hashMerkleRoot := hashMerkleRoot blk, nTime := nTime blk, nBits := nBits blk,
        nNonce := nNonce blk, blockHash := 0\<rparr>, []) \<and>
     (case pprev blk of
        None \<Rightarrow> hashPrev d = 0
      | Some p \<Rightarrow> (\<exists>parent. mem p = Some parent \<and> phashBlock parent = Some (hashPrev d)))"
proof -
  from CDiskBlockIndex_from_Inr [OF assms]
  have d: "d = CBlockIndex.extend blk (CDiskBlockIndex.fields 0 (hashPrev d))"
    and par: "case pprev blk of
        None \<Rightarrow> hashPrev d = 0
      | Some p \<Rightarrow> (\<exists>parent. mem p = Some parent \<and> phashBlock parent = Some (hashPrev d))"
    by simp_all
  have "encode nType v d = Inr (spec_encoding nType v blk 0 (hashPrev d))"
    by (subst d) (rule encode_is_spec_encoding)
  then have "round_trip mem pindex nType v = decode nType v (spec_encoding nType v blk 0 (hashPrev d))"
    using assms(2) by (simp add: round_trip_def)
  then show ?thesis
    using par by (simp only: decode_spec_encoding)
qed

theorem disk_record_round_trip_witness:
  "[0 \<mapsto> SetNull\<lparr>phashBlock := Some 170\<rparr>,
    1 \<mapsto> SetNull\<lparr>pprev := Some 0, nHeight := 1, nFile := 3, nDataPos := 40, nUndoPos := 9,
                    nChainTx := 5, nStatus := BLOCK_VALID_TREE OR BLOCK_HAVE_DATA,
                    prevoutStake := \<lparr>prevout_hash = 1, prevout_n = 2\<rparr>, nStakeTime := 77,
                    nTime := 1000\<rparr>] 1
     = Some (SetNull\<lparr>pprev := Some 0, nHeight := 1, nFile := 3, nDataPos := 40, nUndoPos := 9,
                    nChainTx := 5, nStatus := BLOCK_VALID_TREE OR BLOCK_HAVE_DATA,
                    prevoutStake := \<lparr>prevout_hash = 1, prevout_n = 2\<rparr>, nStakeTime := 77,
                    nTime := 1000\<rparr>) \<and>
   CDiskBlockIndex_from
     [0 \<mapsto> SetNull\<lparr>phashBlock := Some 170\<rparr>,
      1 \<mapsto> SetNull\<lparr>pprev := Some 0, nHeight := 1, nFile := 3, nDataPos := 40, nUndoPos := 9,
                    nChainTx := 5, nStatus := BLOCK_VALID_TREE OR BLOCK_HAVE_DATA,
                    prevoutStake := \<lparr>prevout_hash = 1, prevout_n = 2\<rparr>, nStakeTime := 77,
                    nTime := 1000\<rparr>] 1
     = Inr (CBlockIndex.extend
             (SetNull\<lparr>pprev := Some 0, nHeight := 1, nFile := 3, nDataPos := 40, nUndoPos := 9,
                    nChainTx := 5, nStatus := BLOCK_VALID_TREE OR BLOCK_HAVE_DATA,
                    prevoutStake := \<lparr>prevout_hash = 1, prevout_n = 2\<rparr>, nStakeTime := 77,
                    nTime := 1000\<rparr>)
             (CDiskBlockIndex.fields 0 170)) \<and>
   round_trip
     [0 \<mapsto> SetNull\<lparr>phashBlock := Some 170\<rparr>,
      1 \<mapsto> SetNull\<lparr>pprev := Some 0, nHeight := 1, nFile := 3, nDataPos := 40, nUndoPos := 9,
                    nChainTx := 5, nStatus := BLOCK_VALID_TREE OR BLOCK_HAVE_DATA,
                    prevoutStake := \<lparr>prevout_hash = 1, prevout_n = 2\<rparr>, nStakeTime := 77,
                    nTime := 1000\<rparr>] 1 0 0
     = Inr (CDiskBlockIndex_default\<lparr>nHeight := 1, nFile := 3, nDataPos := 40,
              nStatus := BLOCK_VALID_TREE OR BLOCK_HAVE_DATA, POSDetailSet := True, nTime := 1000,
              hashPrev := 170\<rparr>, [])"
proof -
  let ?blk = "SetNull\<lparr>pprev := Some 0, nHeight := 1, nFile := 3, nDataPos := 40, nUndoPos := 9,
                    nChainTx := 5, nStatus := BLOCK_VALID_TREE OR BLOCK_HAVE_DATA,
                    prevoutStake := \<lparr>prevout_hash = 1, prevout_n = 2\<rparr>, nStakeTime := 77,
                    nTime := 1000\<rparr>"
  let ?mem = "[0 \<mapsto> SetNull\<lparr>phashBlock := Some 170\<rparr>, 1 \<mapsto> ?blk]"
  let ?d = "CBlockIndex.extend ?blk (CDiskBlockIndex.fields 0 170)"
  have a: "?mem 1 = Some ?blk" by simp
  have b: "CDiskBlockIndex_from ?mem 1 = Inr ?d"
    by (simp add: CDiskBlockIndex_from_def GetBlockHash_def uint256_default_def SetNull_def)
  have hp: "hashPrev ?d = 170"
    by (simp add: CBlockIndex.defs CDiskBlockIndex.defs)
  have "round_trip ?mem 1 0 0 = Inr (CDiskBlockIndex_default\<lparr>nHeight := 1, nFile := 3, nDataPos := 40,
              nStatus := BLOCK_VALID_TREE OR BLOCK_HAVE_DATA, POSDetailSet := True, nTime := 1000,
              hashPrev := 170\<rparr>, [])"
    using disk_record_round_trip [OF a b, of 0 0]
    by (simp add: hp SetNull_def CDiskBlockIndex_default_def BLOCK_VALID_TREE_def BLOCK_HAVE_DATA_def BLOCK_HAVE_UNDO_def
        BLOCK_PROOF_OF_STAKE_def CBlockIndex.defs CDiskBlockIndex.defs)
  with a b show ?thesis by blast
qed

text \<open>
  C3, as stated, fails: a node with chain transaction count 5 and sequence id 7 comes
  back from the round trip with both fields zero.
\<close>

theorem round_trip_drops_memory_only_fields:
  "round_trip [0 \<mapsto> SetNull\<lparr>nChainTx := 5, nSequenceId := 7\<rparr>] 0 0 0
     = Inr (CDiskBlockIndex_default\<lparr>POSDetailSet := True\<rparr>, []) \<and>
   nChainTx (CDiskBlockIndex_default\<lparr>POSDetailSet := True\<rparr>)
     \<noteq> nChainTx (SetNull\<lparr>nChainTx := 5, nSequenceId := 7\<rparr>) \<and>
   nSequenceId (CDiskBlockIndex_default\<lparr>POSDetailSet := True\<rparr>)
     \<noteq> nSequenceId (SetNull\<lparr>nChainTx := 5, nSequenceId := 7\<rparr>)"
  by (simp add: round_trip_def CDiskBlockIndex_from_def uint256_default_def encode_def decode_def ser_defs
      CDiskBlockIndex_default_def SetNull_def SER_GETHASH_def BLOCK_HAVE_DATA_def BLOCK_HAVE_UNDO_def
      BLOCK_PROOF_OF_STAKE_def CBlockIndex.defs CDiskBlockIndex.defs)



section \<open>Memoized hash of the disk record\<close>

text \<open>
  C6. For an adjusted time from which a day can be subtracted inside \<open>int64_t\<close>:
  \<open>GetBlockHash\<close> of a disk record returns the cached hash and leaves the record as it is
  exactly when the fast-index flag is on, the record's time is below the adjusted time
  minus 86400 seconds and the cached hash is not zero; in every other case it returns
  the hash of the header made of version, previous hash, merkle root, time, bits and
  nonce, and stores that hash as the cached one.
\<close>

theorem memoized_block_hash:
  assumes "fUseFastIndex \<longrightarrow> - (2 ^ 63) + 86400 \<le> sint GetAdjustedTime"
  shows "CDiskBlockIndex_GetBlockHash GetHash fUseFastIndex GetAdjustedTime this =
           (if fUseFastIndex \<and> uint (nTime this) < sint GetAdjustedTime - 86400 \<and>
               blockHash this \<noteq> 0
            then Inr (blockHash this, this)
            else Inr (GetHash \<lparr>hdr_nVersion = nVersion this, hdr_hashPrevBlock = hashPrev this,
                                hdr_hashMerkleRoot = hashMerkleRoot this, hdr_nTime = nTime this,
                                hdr_nBits = nBits this, hdr_nNonce = nNonce this\<rparr>,
                      this\<lparr>blockHash := GetHash \<lparr>hdr_nVersion = nVersion this,
                                hdr_hashPrevBlock = hashPrev this,
                                hdr_hashMerkleRoot = hashMerkleRoot this, hdr_nTime = nTime this,
                                hdr_nBits = nBits this, hdr_nNonce = nNonce this\<rparr>\<rparr>))"
  using assms
  by (auto simp add: CDiskBlockIndex_GetBlockHash_def Let_def)

theorem memoized_block_hash_witness:
  "- (2 ^ 63) + 86400 \<le> sint (1000000 :: 64 word) \<and>
   CDiskBlockIndex_GetBlockHash (\<lambda>hdr. ucast (hdr_nTime hdr) + 1) True 1000000
       (CDiskBlockIndex_default\<lparr>nTime := 100, blockHash := 5\<rparr>)
     = Inr (5, CDiskBlockIndex_default\<lparr>nTime := 100, blockHash := 5\<rparr>) \<and>
   CDiskBlockIndex_GetBlockHash (\<lambda>hdr. ucast (hdr_nTime hdr) + 1) True 1000000
       (CDiskBlockIndex_default\<lparr>nTime := 100, blockHash := 0\<rparr>)
     = Inr (101, CDiskBlockIndex_default\<lparr>nTime := 100, blockHash := 101\<rparr>) \<and>
   CDiskBlockIndex_GetBlockHash (\<lambda>hdr. ucast (hdr_nTime hdr) + 1) True 1000000
       (CDiskBlockIndex_default\<lparr>nTime := 999999, blockHash := 5\<rparr>)
     = Inr (1000000, CDiskBlockIndex_default\<lparr>nTime := 999999, blockHash := 1000000\<rparr>) \<and>
   CDiskBlockIndex_GetBlockHash (\<lambda>hdr. ucast (hdr_nTime hdr) + 1) False 1000000
       (CDiskBlockIndex_default\<lparr>nTime := 100, blockHash := 5\<rparr>)
     = Inr (101, CDiskBlockIndex_default\<lparr>nTime := 100, blockHash := 101\<rparr>)"
proof -
  have a: "True \<longrightarrow> - (2 ^ 63) + 86400 \<le> sint (1000000 :: 64 word)" by simp
  have b: "False \<longrightarrow> - (2 ^ 63) + 86400 \<le> sint (1000000 :: 64 word)" by simp
  show ?thesis
    using a
      memoized_block_hash [OF a, of "\<lambda>hdr. ucast (hdr_nTime hdr) + 1"
        "CDiskBlockIndex_default\<lparr>nTime := 100, blockHash := 5\<rparr>"]
      memoized_block_hash [OF a, of "\<lambda>hdr. ucast (hdr_nTime hdr) + 1"
        "CDiskBlockIndex_default\<lparr>nTime := 100, blockHash := 0\<rparr>"]
      memoized_block_hash [OF a, of "\<lambda>hdr. ucast (hdr_nTime hdr) + 1"
        "CDiskBlockIndex_default\<lparr>nTime := 999999, blockHash := 5\<rparr>"]
      memoized_block_hash [OF b, of "\<lambda>hdr. ucast (hdr_nTime hdr) + 1"
        "CDiskBlockIndex_default\<lparr>nTime := 100, blockHash := 5\<rparr>"]
    by simp
qed

end
